theory Spec2Isabelle
  imports Main "HOL-Library.Sublist"
begin

section \<open>Python values used by \<open>core/gemini_service.py\<close>\<close>

text \<open>
  A Python \<open>str\<close> is a sequence of Unicode code points, so a text is a list of code
  points. \<open>str\<close> turns an ASCII literal of the source into such a text.
\<close>

type_synonym pystr = "nat list"

definition str :: "string \<Rightarrow> pystr" where
  "str s = map of_char s"

text \<open>
  The exceptions the module raises or handles. \<open>JSONDecodeError\<close> is what the decoder
  of the \<open>json\<close> library raises on malformed text (its message and position are not
  modelled); in Python it is a subclass of \<open>ValueError\<close>, and \<open>except
  json.JSONDecodeError\<close> catches it alone. \<open>Other\<close> stands for an exception of any
  class the module does not name, such as a network or quota error of the backend. All
  of them are instances of \<open>Exception\<close>, which is what \<open>except Exception\<close> catches.
\<close>

datatype 'e exn =
    ValueError pystr
  | RuntimeError pystr
  | JSONDecodeError
  | Other 'e

section \<open>The generation backend\<close>

text \<open>
  \<open>django.conf.settings\<close>, as far as the service reads it.
\<close>

record settings =
  GEMINI_API_KEY :: pystr
  GEMINI_MODEL_LITE :: pystr
  GEMINI_MODEL_FLASH :: pystr
  GEMINI_MODEL_PRO :: pystr

text \<open>
  The object \<open>generate_content\<close> returns: the service tests its truth value and reads
  its \<open>text\<close> attribute (\<open>text_attr\<close>).
\<close>

record response =
  truthy :: bool
  text_attr :: pystr

text \<open>
  The world outside the service: the calls made to the backend so far (model name,
  prompt, keyword arguments) and the durations passed to \<open>time.sleep\<close>, both in order.
\<close>

record 'k world =
  calls :: "(pystr \<times> pystr \<times> 'k) list"
  sleeps :: "nat list"

text \<open>
  The backend is an external collaborator. It is a parameter of the model: a function
  that gives, for the model name, the prompt, the keyword arguments and the number of
  calls made before this one, either the exception the call raises or the response it
  returns.
\<close>

type_synonym ('k, 'e) backend = "pystr \<Rightarrow> pystr \<Rightarrow> 'k \<Rightarrow> nat \<Rightarrow> 'e exn + response"

text \<open>\<open>genai.GenerativeModel(name).generate_content(prompt, **kwargs)\<close>\<close>

definition generate_content ::
  "('k, 'e) backend \<Rightarrow> pystr \<Rightarrow> pystr \<Rightarrow> 'k \<Rightarrow> 'k world \<Rightarrow> ('e exn + response) \<times> 'k world" where
  "generate_content gen name prompt kwargs w =
     (gen name prompt kwargs (length (calls w)),
      w\<lparr>calls := calls w @ [(name, prompt, kwargs)]\<rparr>)"

text \<open>\<open>return response.text if response else None\<close>\<close>

definition text_or_None :: "response \<Rightarrow> pystr option" where
  "text_or_None r = (if truthy r then Some (text_attr r) else None)"

definition generate_with_lite ::
  "('k, 'e) backend \<Rightarrow> settings \<Rightarrow> pystr \<Rightarrow> 'k \<Rightarrow> 'k world \<Rightarrow> ('e exn + pystr option) \<times> 'k world" where
  "generate_with_lite gen st prompt kwargs w =
     (case generate_content gen (GEMINI_MODEL_LITE st) prompt kwargs w of
        (Inl e, w') \<Rightarrow> (Inl e, w')
      | (Inr r, w') \<Rightarrow> (Inr (text_or_None r), w'))"

definition generate_with_flash ::
  "('k, 'e) backend \<Rightarrow> settings \<Rightarrow> pystr \<Rightarrow> 'k \<Rightarrow> 'k world \<Rightarrow> ('e exn + pystr option) \<times> 'k world" where
  "generate_with_flash gen st prompt kwargs w =
     (case generate_content gen (GEMINI_MODEL_FLASH st) prompt kwargs w of
        (Inl e, w') \<Rightarrow> (Inl e, w')
      | (Inr r, w') \<Rightarrow> (Inr (text_or_None r), w'))"

definition generate_with_pro ::
  "('k, 'e) backend \<Rightarrow> settings \<Rightarrow> pystr \<Rightarrow> 'k \<Rightarrow> 'k world \<Rightarrow> ('e exn + pystr option) \<times> 'k world" where
  "generate_with_pro gen st prompt kwargs w =
     (case generate_content gen (GEMINI_MODEL_PRO st) prompt kwargs w of
        (Inl e, w') \<Rightarrow> (Inl e, w')
      | (Inr r, w') \<Rightarrow> (Inr (text_or_None r), w'))"

section \<open>Retry with exponential backoff\<close>

text \<open>
  The body of the \<open>try\<close> block of \<open>generate_with_retry\<close>: the dispatch on
  \<open>model_type\<close>, whose last branch raises \<open>ValueError\<close> inside the \<open>try\<close>.
\<close>

definition try_body ::
  "('k, 'e) backend \<Rightarrow> settings \<Rightarrow> pystr \<Rightarrow> pystr \<Rightarrow> 'k \<Rightarrow> 'k world \<Rightarrow> ('e exn + pystr option) \<times> 'k world" where
  "try_body gen st prompt model_type kwargs w =
     (if model_type = str ''lite'' then generate_with_lite gen st prompt kwargs w
      else if model_type = str ''flash'' then generate_with_flash gen st prompt kwargs w
      else if model_type = str ''pro'' then generate_with_pro gen st prompt kwargs w
      else (Inl (ValueError (str ''Invalid model_type: '' @ model_type)), w))"

text \<open>\<open>time.sleep(wait_time)\<close>\<close>

definition sleep :: "nat \<Rightarrow> 'k world \<Rightarrow> 'k world" where
  "sleep wait_time w = w\<lparr>sleeps := sleeps w @ [wait_time]\<rparr>"

text \<open>
  The \<open>for attempt in range(max_retries)\<close> loop over the attempts still to run, and
  the \<open>raise RuntimeError\<close> after it. A return of the \<open>try\<close> body leaves the
  function; any exception of the body reaches the handler, which raises it again on
  the attempt \<open>max_retries - 1\<close> and sleeps \<open>2 ** attempt\<close> otherwise.
\<close>

fun retry_loop ::
  "('k, 'e) backend \<Rightarrow> settings \<Rightarrow> pystr \<Rightarrow> pystr \<Rightarrow> int \<Rightarrow> 'k \<Rightarrow> nat list \<Rightarrow> 'k world
     \<Rightarrow> ('e exn + pystr option) \<times> 'k world" where
  "retry_loop gen st prompt model_type max_retries kwargs [] w =
     (Inl (RuntimeError (str ''Failed after maximum retries'')), w)"
| "retry_loop gen st prompt model_type max_retries kwargs (attempt # rest) w =
     (case try_body gen st prompt model_type kwargs w of
        (Inr v, w') \<Rightarrow> (Inr v, w')
      | (Inl e, w') \<Rightarrow>
          if int attempt = max_retries - 1 then (Inl e, w')
          else retry_loop gen st prompt model_type max_retries kwargs rest
                 (sleep (2 ^ attempt) w'))"

definition generate_with_retry ::
  "('k, 'e) backend \<Rightarrow> settings \<Rightarrow> pystr \<Rightarrow> pystr \<Rightarrow> int \<Rightarrow> 'k \<Rightarrow> 'k world
     \<Rightarrow> ('e exn + pystr option) \<times> 'k world" where
  "generate_with_retry gen st prompt model_type max_retries kwargs w =
     retry_loop gen st prompt model_type max_retries kwargs [0..<nat max_retries] w"

section \<open>Extracting JSON from a response\<close>

text \<open>
  The values \<open>json.loads\<close> returns: \<open>None\<close>, booleans, integers, floats (given by a
  mantissa and a binary exponent), strings, lists, and dictionaries with string keys
  (in the order of the text).
\<close>

datatype json =
    JNull
  | JBool bool
  | JInt int
  | JFloat int int
  | JString pystr
  | JArray "json list"
  | JObject "(pystr \<times> json) list"

text \<open>
  \<open>str.strip()\<close> removes, at both ends, the code points for which \<open>str.isspace\<close>
  holds: the ASCII whitespace and separators, \<open>U+0085\<close>, \<open>U+00A0\<close> and the Unicode
  space characters.
\<close>

definition isspace :: "nat \<Rightarrow> bool" where
  "isspace c =
     ((9 \<le> c \<and> c \<le> 13) \<or> (28 \<le> c \<and> c \<le> 32) \<or> c = 133 \<or> c = 160 \<or> c = 5760 \<or>
      (8192 \<le> c \<and> c \<le> 8202) \<or> c = 8232 \<or> c = 8233 \<or> c = 8239 \<or> c = 8287 \<or> c = 12288)"

definition strip :: "pystr \<Rightarrow> pystr" where
  "strip s = rev (dropWhile isspace (rev (dropWhile isspace s)))"

text \<open>\<open>text.startswith(p)\<close> and \<open>text.endswith(p)\<close>\<close>

definition startswith :: "pystr \<Rightarrow> pystr \<Rightarrow> bool" where
  "startswith s p = prefix p s"

definition endswith :: "pystr \<Rightarrow> pystr \<Rightarrow> bool" where
  "endswith s p = suffix p s"

text \<open>
  The two statements that remove the code fences: \<open>text[7:]\<close> or \<open>text[3:]\<close> at the
  start, then \<open>text[:-3]\<close> at the end.
\<close>

definition remove_fences :: "pystr \<Rightarrow> pystr" where
  "remove_fences text0 =
     (let text1 = (if startswith text0 (str ''```json'') then drop 7 text0
                   else if startswith text0 (str ''```'') then drop 3 text0
                   else text0)
      in if endswith text1 (str ''```'') then take (length text1 - 3) text1 else text1)"

text \<open>
  \<open>re.search(r"\{.*\}", text, re.DOTALL)\<close>, as the matcher runs it. The search tries
  the start positions from left to right. At a \<open>{\<close>, the greedy \<open>.*\<close> (which with
  \<open>DOTALL\<close> matches every character) first takes all the rest and then gives characters
  back until a \<open>}\<close> follows: \<open>greedy_to_brace\<close> prefers the match that consumed more.
  The result is the matched text (\<open>json_match.group()\<close>), or \<open>None\<close>.
\<close>

fun greedy_to_brace :: "pystr \<Rightarrow> pystr option" where
  "greedy_to_brace [] = None"
| "greedy_to_brace (c # cs) =
     (case greedy_to_brace cs of
        Some m \<Rightarrow> Some (c # m)
      | None \<Rightarrow> if c = 125 then Some [c] else None)"

fun re_search :: "pystr \<Rightarrow> pystr option" where
  "re_search [] = None"
| "re_search (c # cs) =
     (if c = 123 then
        (case greedy_to_brace cs of
           Some m \<Rightarrow> Some (c # m)
         | None \<Rightarrow> re_search cs)
      else re_search cs)"

text \<open>
  \<open>parse_json_response\<close>. The decoder \<open>json.loads\<close> belongs to the Python library and
  is a parameter \<open>loads\<close>: it returns the decoded value or raises. The handler catches
  \<open>JSONDecodeError\<close> only; the second call of \<open>loads\<close> is made inside the handler, so
  whatever it raises leaves the function. \<open>None\<close> and the empty text are both falsy.
\<close>

definition parse_json_response :: "(pystr \<Rightarrow> 'e exn + json) \<Rightarrow> pystr option \<Rightarrow> 'e exn + json" where
  "parse_json_response loads response_text =
     (case response_text of
        None \<Rightarrow> Inl (ValueError (str ''Empty response text''))
      | Some t \<Rightarrow>
          if t = [] then Inl (ValueError (str ''Empty response text''))
          else
            (let text = strip (remove_fences (strip t)) in
             case loads text of
               Inr v \<Rightarrow> Inr v
             | Inl e \<Rightarrow>
                 (case e of
                    JSONDecodeError \<Rightarrow>
                      (case re_search text of
                         Some json_match \<Rightarrow> loads json_match
                       | None \<Rightarrow>
                           Inl (ValueError (str ''Could not parse JSON from Gemini response'')))
                  | _ \<Rightarrow> Inl e)))"

section \<open>Notions used to state the properties\<close>

text \<open>
  The recognised tiers, the model name the dispatch of \<open>generate_with_retry\<close> selects
  for a recognised tier, and the waits \<open>2 ** attempt\<close> for the attempts from \<open>a\<close> up to
  \<open>b\<close> (exclusive).
\<close>

definition valid_tier :: "pystr \<Rightarrow> bool" where
  "valid_tier model_type =
     (model_type = str ''lite'' \<or> model_type = str ''flash'' \<or> model_type = str ''pro'')"

definition model_name :: "settings \<Rightarrow> pystr \<Rightarrow> pystr" where
  "model_name st model_type =
     (if model_type = str ''lite'' then GEMINI_MODEL_LITE st
      else if model_type = str ''flash'' then GEMINI_MODEL_FLASH st
      else GEMINI_MODEL_PRO st)"

definition backoff :: "nat \<Rightarrow> nat \<Rightarrow> nat list" where
  "backoff a b = map (\<lambda>i. 2 ^ i) [a..<b]"

text \<open>
  Sample collaborators for concrete runs: a world in which nothing has happened yet,
  a configuration, a backend that raises on its first \<open>k\<close> calls (each time a different
  error) and answers afterwards, and a backend that always returns the same response.
\<close>

definition idle :: "unit world" where
  "idle = \<lparr>calls = [], sleeps = []\<rparr>"

definition demo_settings :: settings where
  "demo_settings =
     \<lparr>GEMINI_API_KEY = str ''secret'',
      GEMINI_MODEL_LITE = str ''gemini-flash-lite'',
      GEMINI_MODEL_FLASH = str ''gemini-flash'',
      GEMINI_MODEL_PRO = str ''gemini-pro''\<rparr>"

definition flaky_backend :: "nat \<Rightarrow> (unit, nat) backend" where
  "flaky_backend k name prompt kwargs i =
     (if i < k then Inl (Other i) else Inr \<lparr>truthy = True, text_attr = str ''pong''\<rparr>)"

definition fixed_backend :: "response \<Rightarrow> (unit, nat) backend" where
  "fixed_backend r name prompt kwargs i = Inr r"

text \<open>
  A decoder to run the extractor on concrete texts. It reads the fragment of JSON made
  of objects, arrays, strings without escape sequences, integers, \<open>true\<close>, \<open>false\<close>
  and \<open>null\<close>, with the whitespace JSON allows, and raises \<open>JSONDecodeError\<close> on every
  other text. The first argument of the scanners bounds the nesting and the number of
  elements; the length of the text is enough.
\<close>

definition json_ws :: "nat \<Rightarrow> bool" where
  "json_ws c = (c = 32 \<or> c = 9 \<or> c = 10 \<or> c = 13)"

definition is_digit :: "nat \<Rightarrow> bool" where
  "is_digit c = (48 \<le> c \<and> c \<le> 57)"

definition scan_string :: "pystr \<Rightarrow> (pystr \<times> pystr) option" where
  "scan_string s =
     (let body = takeWhile (\<lambda>c. c \<noteq> 34) s; rest = dropWhile (\<lambda>c. c \<noteq> 34) s
      in if rest = [] then None
         else if list_ex (\<lambda>c. c = 92 \<or> c < 32) body then None
         else Some (body, tl rest))"

definition scan_int :: "pystr \<Rightarrow> (json \<times> pystr) option" where
  "scan_int s =
     (let neg = prefix [45] s;
          r = (if neg then drop 1 s else s);
          ds = takeWhile is_digit r;
          rest = dropWhile is_digit r;
          v = foldl (\<lambda>a c. 10 * a + int (c - 48)) 0 ds
      in if ds = [] then None
         else if 1 < length ds \<and> prefix [48] ds then None
         else if prefix [46] rest \<or> prefix [101] rest \<or> prefix [69] rest then None
         else Some (JInt (if neg then - v else v), rest))"

fun scan_value :: "nat \<Rightarrow> pystr \<Rightarrow> (json \<times> pystr) option"
  and scan_elems :: "nat \<Rightarrow> pystr \<Rightarrow> (json list \<times> pystr) option"
  and scan_members :: "nat \<Rightarrow> pystr \<Rightarrow> ((pystr \<times> json) list \<times> pystr) option" where
  "scan_value 0 s = None"
| "scan_value (Suc n) s =
     (case dropWhile json_ws s of
        [] \<Rightarrow> None
      | c # cs \<Rightarrow>
          if c = 34 then map_option (\<lambda>(k, r). (JString k, r)) (scan_string cs)
          else if c = 123 then
            (if prefix [125] (dropWhile json_ws cs)
             then Some (JObject [], drop 1 (dropWhile json_ws cs))
             else map_option (\<lambda>(ms, r). (JObject ms, r)) (scan_members n cs))
          else if c = 91 then
            (if prefix [93] (dropWhile json_ws cs)
             then Some (JArray [], drop 1 (dropWhile json_ws cs))
             else map_option (\<lambda>(vs, r). (JArray vs, r)) (scan_elems n cs))
          else if prefix (str ''true'') (c # cs) then Some (JBool True, drop 4 (c # cs))
          else if prefix (str ''false'') (c # cs) then Some (JBool False, drop 5 (c # cs))
          else if prefix (str ''null'') (c # cs) then Some (JNull, drop 4 (c # cs))
          else scan_int (c # cs))"
| "scan_elems 0 s = None"
| "scan_elems (Suc n) s =
     (case scan_value n s of
        None \<Rightarrow> None
      | Some (v, r) \<Rightarrow>
          (case dropWhile json_ws r of
             [] \<Rightarrow> None
           | d # ds \<Rightarrow>
               if d = 93 then Some ([v], ds)
               else if d = 44 then map_option (\<lambda>(vs, r'). (v # vs, r')) (scan_elems n ds)
               else None))"
| "scan_members 0 s = None"
| "scan_members (Suc n) s =
     (case dropWhile json_ws s of
        [] \<Rightarrow> None
      | c # cs \<Rightarrow>
          if c = 34 then
            (case scan_string cs of
               None \<Rightarrow> None
             | Some (k, r) \<Rightarrow>
                 (case dropWhile json_ws r of
                    [] \<Rightarrow> None
                  | d # ds \<Rightarrow>
                      if d = 58 then
                        (case scan_value n ds of
                           None \<Rightarrow> None
                         | Some (v, r2) \<Rightarrow>
                             (case dropWhile json_ws r2 of
                                [] \<Rightarrow> None
                              | e # es \<Rightarrow>
                                  if e = 125 then Some ([(k, v)], es)
                                  else if e = 44 then
                                    map_option (\<lambda>(ms, r3). ((k, v) # ms, r3)) (scan_members n es)
                                  else None))
                      else None))
          else None)"

definition mini_loads :: "pystr \<Rightarrow> unit exn + json" where
  "mini_loads s =
     (case scan_value (Suc (length s)) s of
        None \<Rightarrow> Inl JSONDecodeError
      | Some (v, r) \<Rightarrow> if dropWhile json_ws r = [] then Inr v else Inl JSONDecodeError)"

section \<open>The retry loop\<close>

lemma str_eq_iff [simp]: "str a = str b \<longleftrightarrow> a = b"
  by (simp add: str_def inj_map_eq_map inj_of_char)

lemma backoff_empty [simp]: "b \<le> a \<Longrightarrow> backoff a b = []"
  by (simp add: backoff_def)

lemma backoff_step: "a < b \<Longrightarrow> backoff a b = 2 ^ a # backoff (Suc a) b"
  by (simp add: backoff_def upt_conv_Cons)

lemma try_body_valid:
  "valid_tier model_type \<Longrightarrow>
   try_body gen st prompt model_type kwargs w =
     (case gen (model_name st model_type) prompt kwargs (length (calls w)) of
        Inl e \<Rightarrow> Inl e | Inr r \<Rightarrow> Inr (text_or_None r),
      w\<lparr>calls := calls w @ [(model_name st model_type, prompt, kwargs)]\<rparr>)"
  by (auto simp: valid_tier_def try_body_def model_name_def generate_with_lite_def
      generate_with_flash_def generate_with_pro_def generate_content_def split: sum.splits)

lemma try_body_invalid:
  "\<not> valid_tier model_type \<Longrightarrow>
   try_body gen st prompt model_type kwargs w =
     (Inl (ValueError (str ''Invalid model_type: '' @ model_type)), w)"
  by (simp add: valid_tier_def try_body_def)

lemma retry_loop_invalid:
  "\<not> valid_tier model_type \<Longrightarrow> n - a = Suc d \<Longrightarrow>
   retry_loop gen st prompt model_type (int n) kwargs [a..<n] w =
     (Inl (ValueError (str ''Invalid model_type: '' @ model_type)),
      w\<lparr>sleeps := sleeps w @ backoff a (n - 1)\<rparr>)"
proof (induction d arbitrary: a w)
  case 0
  then have "a < n" and last: "int a = int n - 1" by auto
  then have "[a..<n] = a # [Suc a..<n]" by (simp add: upt_conv_Cons)
  with 0 last show ?case by (simp add: try_body_invalid)
next
  case (Suc d)
  then have "a < n" and notlast: "int a \<noteq> int n - 1" and "a < n - 1" by auto
  then have "[a..<n] = a # [Suc a..<n]" by (simp add: upt_conv_Cons)
  moreover have "n - Suc a = Suc d" using Suc.prems by simp
  ultimately show ?case
    using Suc.IH [of "Suc a" "sleep (2 ^ a) w"] Suc.prems(1) notlast \<open>a < n - 1\<close>
    by (simp add: try_body_invalid sleep_def backoff_step)
qed

lemma retry_loop_all_fail:
  "valid_tier model_type \<Longrightarrow> n - a = Suc d \<Longrightarrow>
   (\<And>i. length (calls w) \<le> i \<Longrightarrow> i \<le> length (calls w) + d \<Longrightarrow>
      gen (model_name st model_type) prompt kwargs i = Inl (err i)) \<Longrightarrow>
   retry_loop gen st prompt model_type (int n) kwargs [a..<n] w =
     (Inl (err (length (calls w) + d)),
      w\<lparr>calls := calls w @ replicate (Suc d) (model_name st model_type, prompt, kwargs),
        sleeps := sleeps w @ backoff a (n - 1)\<rparr>)"
proof (induction d arbitrary: a w)
  case 0
  then have "a < n" and last: "int a = int n - 1" by auto
  then have "[a..<n] = a # [Suc a..<n]" by (simp add: upt_conv_Cons)
  moreover have "gen (model_name st model_type) prompt kwargs (length (calls w)) = Inl (err (length (calls w)))"
    using "0.prems"(3) by simp
  ultimately show ?case using 0(1) last by (simp add: try_body_valid)
next
  case (Suc d)
  let ?x = "(model_name st model_type, prompt, kwargs)"
  let ?w1 = "sleep (2 ^ a) (w\<lparr>calls := calls w @ [?x]\<rparr>)"
  from Suc.prems have "a < n" and notlast: "int a \<noteq> int n - 1" and lt: "a < n - 1" by auto
  then have upt: "[a..<n] = a # [Suc a..<n]" by (simp add: upt_conv_Cons)
  have now: "gen (model_name st model_type) prompt kwargs (length (calls w)) = Inl (err (length (calls w)))"
    using Suc.prems(3) by simp
  have len: "length (calls ?w1) = Suc (length (calls w))" by (simp add: sleep_def)
  have ih: "retry_loop gen st prompt model_type (int n) kwargs [Suc a..<n] ?w1 =
     (Inl (err (length (calls ?w1) + d)),
      ?w1\<lparr>calls := calls ?w1 @ replicate (Suc d) ?x,
        sleeps := sleeps ?w1 @ backoff (Suc a) (n - 1)\<rparr>)"
  proof (rule Suc.IH)
    show "valid_tier model_type" by (rule Suc.prems(1))
    show "n - Suc a = Suc d" using Suc.prems(2) by simp
    fix i assume "length (calls ?w1) \<le> i" "i \<le> length (calls ?w1) + d"
    then show "gen (model_name st model_type) prompt kwargs i = Inl (err i)"
      using Suc.prems(3) [of i] len by simp
  qed
  show ?case
    using upt now notlast lt ih Suc.prems(1)
    by (simp add: try_body_valid sleep_def backoff_step replicate_app_Cons_same)
qed

lemma retry_loop_fail_then_succeed:
  "valid_tier model_type \<Longrightarrow> a + k < n \<Longrightarrow>
   (\<And>i. length (calls w) \<le> i \<Longrightarrow> i < length (calls w) + k \<Longrightarrow>
      gen (model_name st model_type) prompt kwargs i = Inl (err i)) \<Longrightarrow>
   gen (model_name st model_type) prompt kwargs (length (calls w) + k) = Inr r \<Longrightarrow>
   retry_loop gen st prompt model_type (int n) kwargs [a..<n] w =
     (Inr (text_or_None r),
      w\<lparr>calls := calls w @ replicate (Suc k) (model_name st model_type, prompt, kwargs),
        sleeps := sleeps w @ backoff a (a + k)\<rparr>)"
proof (induction k arbitrary: a w)
  case 0
  then have "[a..<n] = a # [Suc a..<n]" by (simp add: upt_conv_Cons)
  with 0 show ?case by (simp add: try_body_valid)
next
  case (Suc k)
  let ?x = "(model_name st model_type, prompt, kwargs)"
  let ?w1 = "sleep (2 ^ a) (w\<lparr>calls := calls w @ [?x]\<rparr>)"
  from Suc.prems have "a < n" and notlast: "int a \<noteq> int n - 1" by auto
  then have upt: "[a..<n] = a # [Suc a..<n]" by (simp add: upt_conv_Cons)
  have now: "gen (model_name st model_type) prompt kwargs (length (calls w)) = Inl (err (length (calls w)))"
    using Suc.prems(3) by simp
  have len: "length (calls ?w1) = Suc (length (calls w))" by (simp add: sleep_def)
  have ih: "retry_loop gen st prompt model_type (int n) kwargs [Suc a..<n] ?w1 =
     (Inr (text_or_None r),
      ?w1\<lparr>calls := calls ?w1 @ replicate (Suc k) ?x,
        sleeps := sleeps ?w1 @ backoff (Suc a) (Suc a + k)\<rparr>)"
  proof (rule Suc.IH)
    show "valid_tier model_type" by (rule Suc.prems(1))
    show "Suc a + k < n" using Suc.prems(2) by simp
    show "gen (model_name st model_type) prompt kwargs (length (calls ?w1) + k) = Inr r"
      using Suc.prems(4) len by simp
    fix i assume "length (calls ?w1) \<le> i" "i < length (calls ?w1) + k"
    then show "gen (model_name st model_type) prompt kwargs i = Inl (err i)"
      using Suc.prems(3) [of i] len by simp
  qed
  show ?case
    using upt now notlast ih Suc.prems(1)
    by (simp add: try_body_valid sleep_def backoff_step replicate_app_Cons_same)
qed

subsection \<open>Properties of \<open>generate_with_retry\<close> and of the generators\<close>

text \<open>
  C1. An unknown \<open>model_type\<close> never reaches the backend, and the error raised in the
  end is the \<open>ValueError\<close> of the dispatch. But that \<open>ValueError\<close> is raised inside
  the \<open>try\<close> block, so the handler treats it like a backend failure: with \<open>model_type
  = "turbo"\<close> and \<open>max_retries = 3\<close> the call sleeps 1 and then 2 time units before the
  error leaves the function. Only with \<open>max_retries = 1\<close> is the error immediate.
\<close>

theorem invalid_tier_is_retried:
  "generate_with_retry gen st prompt (str ''turbo'') 3 kwargs w =
     (Inl (ValueError (str ''Invalid model_type: turbo'')), w\<lparr>sleeps := sleeps w @ [1, 2]\<rparr>)"
proof -
  have inv: "\<not> valid_tier (str ''turbo'')" by (simp add: valid_tier_def)
  have d: "(3::nat) - 0 = Suc 2" by simp
  have b: "backoff 0 (3 - 1) = [1, 2]" by (simp add: backoff_def upt_rec)
  have m: "str ''Invalid model_type: '' @ str ''turbo'' = str ''Invalid model_type: turbo''"
    by (simp add: str_def)
  have n: "[0..<nat 3] = [0..<3]" "int 3 = 3" by simp_all
  show ?thesis
    using retry_loop_invalid [OF inv d, of gen st prompt kwargs w]
    unfolding generate_with_retry_def b m n by simp
qed

text \<open>
  C2. With a recognised tier, if the backend raises on the next \<open>k\<close> calls and returns
  a response on the call after them, and \<open>k < max_retries\<close>, then
  \<open>generate_with_retry\<close> returns the value of that response, has made exactly \<open>k + 1\<close>
  backend calls, and has slept exactly \<open>k\<close> times, for \<open>2^0, 2^1, ..., 2^(k-1)\<close> time
  units in this order.
\<close>

theorem fail_then_succeed:
  assumes "valid_tier model_type" and "int k < max_retries"
    and "\<forall>i<k. gen (model_name st model_type) prompt kwargs (length (calls w) + i) = Inl (err i)"
    and "gen (model_name st model_type) prompt kwargs (length (calls w) + k) = Inr r"
  shows "generate_with_retry gen st prompt model_type max_retries kwargs w =
     (Inr (text_or_None r),
      w\<lparr>calls := calls w @ replicate (k + 1) (model_name st model_type, prompt, kwargs),
        sleeps := sleeps w @ map (\<lambda>a. 2 ^ a) [0..<k]\<rparr>)"
proof -
  let ?n = "nat max_retries"
  have n: "int ?n = max_retries" and kn: "0 + k < ?n" using assms(2) by auto
  have fails: "gen (model_name st model_type) prompt kwargs i =
      Inl (err (i - length (calls w)))"
    if "length (calls w) \<le> i" "i < length (calls w) + k" for i
    using assms(3) that by (metis add_diff_inverse_nat less_diff_conv2 not_less add.commute)
  have "retry_loop gen st prompt model_type (int ?n) kwargs [0..<?n] w =
     (Inr (text_or_None r),
      w\<lparr>calls := calls w @ replicate (Suc k) (model_name st model_type, prompt, kwargs),
        sleeps := sleeps w @ backoff 0 (0 + k)\<rparr>)"
    using fails assms(4)
    by (intro retry_loop_fail_then_succeed [OF assms(1) kn, where err = "\<lambda>i. err (i - length (calls w))"])
  then show ?thesis
    unfolding generate_with_retry_def n by (simp add: backoff_def)
qed

theorem fail_then_succeed_witness:
  "generate_with_retry (flaky_backend 2) demo_settings (str ''ping'') (str ''flash'') 3 () idle =
     (Inr (Some (str ''pong'')),
      \<lparr>calls = [(str ''gemini-flash'', str ''ping'', ()), (str ''gemini-flash'', str ''ping'', ()),
                (str ''gemini-flash'', str ''ping'', ())],
       sleeps = [1, 2]\<rparr>)"
proof -
  have v: "valid_tier (str ''flash'')" by (simp add: valid_tier_def)
  have k: "int 2 < 3" by simp
  have f: "\<forall>i<2. flaky_backend 2 (model_name demo_settings (str ''flash'')) (str ''ping'') ()
      (length (calls idle) + i) = Inl (Other i)"
    by (simp add: flaky_backend_def idle_def)
  have s: "flaky_backend 2 (model_name demo_settings (str ''flash'')) (str ''ping'') ()
      (length (calls idle) + 2) = Inr \<lparr>truthy = True, text_attr = str ''pong''\<rparr>"
    by (simp add: flaky_backend_def idle_def)
  have u: "[0..<2] = [0, Suc 0]" by (simp add: upt_rec)
  show ?thesis
    using fail_then_succeed [where gen = "flaky_backend 2" and err = Other, OF v k f s]
    by (simp add: text_or_None_def model_name_def demo_settings_def idle_def u
        numeral_2_eq_2)
qed

text \<open>
  C3. With a recognised tier and \<open>max_retries \<ge> 1\<close>, if the backend raises on each of
  the next \<open>max_retries\<close> calls, then \<open>generate_with_retry\<close> makes exactly
  \<open>max_retries\<close> backend calls and raises the very error of the last of them; between
  the calls it has slept \<open>2^0, ..., 2^(max_retries - 2)\<close>.
\<close>

theorem always_fail_reraises_last:
  assumes "valid_tier model_type" and "1 \<le> max_retries"
    and "\<forall>i < nat max_retries.
           gen (model_name st model_type) prompt kwargs (length (calls w) + i) = Inl (err i)"
  shows "generate_with_retry gen st prompt model_type max_retries kwargs w =
     (Inl (err (nat max_retries - 1)),
      w\<lparr>calls := calls w @ replicate (nat max_retries) (model_name st model_type, prompt, kwargs),
        sleeps := sleeps w @ map (\<lambda>a. 2 ^ a) [0..<nat max_retries - 1]\<rparr>)"
proof -
  let ?n = "nat max_retries"
  obtain d where d: "?n - 0 = Suc d" using assms(2) by (cases ?n) auto
  have n: "int ?n = max_retries" using assms(2) by simp
  have fails: "gen (model_name st model_type) prompt kwargs i =
      Inl (err (i - length (calls w)))"
    if "length (calls w) \<le> i" "i \<le> length (calls w) + d" for i
  proof -
    have "i - length (calls w) < ?n" using that d by simp
    then show ?thesis using assms(3) that(1) by (metis le_add_diff_inverse)
  qed
  have "retry_loop gen st prompt model_type (int ?n) kwargs [0..<?n] w =
     (Inl (err (length (calls w) + d - length (calls w))),
      w\<lparr>calls := calls w @ replicate (Suc d) (model_name st model_type, prompt, kwargs),
        sleeps := sleeps w @ backoff 0 (?n - 1)\<rparr>)"
    using fails
    by (intro retry_loop_all_fail [OF assms(1) d, where err = "\<lambda>i. err (i - length (calls w))"])
  then show ?thesis
    unfolding generate_with_retry_def n using d by (simp add: backoff_def)
qed

theorem always_fail_reraises_last_witness:
  "generate_with_retry (flaky_backend 5) demo_settings (str ''ping'') (str ''pro'') 3 () idle =
     (Inl (Other 2),
      \<lparr>calls = [(str ''gemini-pro'', str ''ping'', ()), (str ''gemini-pro'', str ''ping'', ()),
                (str ''gemini-pro'', str ''ping'', ())],
       sleeps = [1, 2]\<rparr>)"
proof -
  have v: "valid_tier (str ''pro'')" by (simp add: valid_tier_def)
  have k: "(1::int) \<le> 3" by simp
  have f: "\<forall>i<nat 3. flaky_backend 5 (model_name demo_settings (str ''pro'')) (str ''ping'') ()
      (length (calls idle) + i) = Inl (Other i)"
    by (simp add: flaky_backend_def idle_def)
  have u: "[0..<2] = [0, Suc 0]" by (simp add: upt_rec)
  have r: "replicate 3 x = [x, x, x]" for x :: "pystr \<times> pystr \<times> unit"
    by (simp add: numeral_3_eq_3)
  show ?thesis
    using always_fail_reraises_last [where gen = "flaky_backend 5" and err = Other, OF v k f]
    by (simp add: model_name_def demo_settings_def idle_def u r)
qed

text \<open>
  C4. With \<open>max_retries \<le> 0\<close> the loop body never runs: the call leaves the world as it
  found it (no backend call, no sleep) and raises \<open>RuntimeError("Failed after maximum
  retries")\<close>, which is neither the \<open>ValueError\<close> of an unknown tier, nor an error of
  a class the backend brings along, nor a returned value (so in particular not
  \<open>None\<close>).
\<close>

theorem nonpositive_budget_exhausted:
  assumes "max_retries \<le> 0"
  shows "generate_with_retry gen st prompt model_type max_retries kwargs w =
           (Inl (RuntimeError (str ''Failed after maximum retries'')), w) \<and>
         (\<forall>m. fst (generate_with_retry gen st prompt model_type max_retries kwargs w)
               \<noteq> Inl (ValueError m)) \<and>
         (\<forall>e. fst (generate_with_retry gen st prompt model_type max_retries kwargs w)
               \<noteq> Inl (Other e)) \<and>
         (\<forall>v. fst (generate_with_retry gen st prompt model_type max_retries kwargs w)
               \<noteq> Inr v)"
  using assms by (simp add: generate_with_retry_def)

theorem nonpositive_budget_exhausted_witness:
  "generate_with_retry (flaky_backend 0) demo_settings (str ''ping'') (str ''flash'') (- 1) () idle =
     (Inl (RuntimeError (str ''Failed after maximum retries'')), idle)"
proof -
  have h: "(- 1 :: int) \<le> 0" by simp
  show ?thesis
    using nonpositive_budget_exhausted [OF h, of "flaky_backend 0" demo_settings "str ''ping''"
        "str ''flash''" "()" idle]
    by simp
qed

text \<open>
  C9. Each of the three generators, when the backend returns a response, yields
  \<open>None\<close> if the response is falsy and exactly its \<open>text\<close> attribute otherwise, with
  no character removed or changed.
\<close>

theorem generate_returns_text_verbatim:
  "(gen (GEMINI_MODEL_LITE st) prompt kwargs (length (calls w)) = Inr r \<longrightarrow>
      fst (generate_with_lite gen st prompt kwargs w) =
        Inr (if truthy r then Some (text_attr r) else None)) \<and>
   (gen (GEMINI_MODEL_FLASH st) prompt kwargs (length (calls w)) = Inr r \<longrightarrow>
      fst (generate_with_flash gen st prompt kwargs w) =
        Inr (if truthy r then Some (text_attr r) else None)) \<and>
   (gen (GEMINI_MODEL_PRO st) prompt kwargs (length (calls w)) = Inr r \<longrightarrow>
      fst (generate_with_pro gen st prompt kwargs w) =
        Inr (if truthy r then Some (text_attr r) else None))"
  by (simp add: generate_with_lite_def generate_with_flash_def generate_with_pro_def
      generate_content_def text_or_None_def)

theorem generate_returns_text_verbatim_witness:
  "fst (generate_with_lite (fixed_backend \<lparr>truthy = True, text_attr = str ''  {} ''\<rparr>)
          demo_settings (str ''ping'') () idle) = Inr (Some (str ''  {} '')) \<and>
   fst (generate_with_flash (fixed_backend \<lparr>truthy = True, text_attr = str ''  {} ''\<rparr>)
          demo_settings (str ''ping'') () idle) = Inr (Some (str ''  {} '')) \<and>
   fst (generate_with_pro (fixed_backend \<lparr>truthy = False, text_attr = str ''lost''\<rparr>)
          demo_settings (str ''ping'') () idle) = Inr None"
  using generate_returns_text_verbatim [of "fixed_backend \<lparr>truthy = True, text_attr = str ''  {} ''\<rparr>"
      demo_settings "str ''ping''" "()" idle "\<lparr>truthy = True, text_attr = str ''  {} ''\<rparr>"]
    generate_returns_text_verbatim [of "fixed_backend \<lparr>truthy = False, text_attr = str ''lost''\<rparr>"
      demo_settings "str ''ping''" "()" idle "\<lparr>truthy = False, text_attr = str ''lost''\<rparr>"]
  by (simp add: fixed_backend_def)

section \<open>The extractor\<close>

subsection \<open>Trimming, fences and the brace search\<close>

lemma dropWhile_spaces:
  "list_all isspace ws \<Longrightarrow> dropWhile isspace (ws @ x) = dropWhile isspace x"
  by (induction ws) auto

lemma dropWhile_nonspace_head:
  "x \<noteq> [] \<Longrightarrow> \<not> isspace (hd x) \<Longrightarrow> dropWhile isspace (x @ y) = x @ y"
  by (cases x) auto

lemma strip_core:
  assumes "list_all isspace ws1" and "list_all isspace ws2"
    and "x \<noteq> []" and "\<not> isspace (hd x)" and "\<not> isspace (last x)"
  shows "strip (ws1 @ x @ ws2) = x"
proof -
  have front: "dropWhile isspace (ws1 @ x @ ws2) = x @ ws2"
    using assms(1,3,4) by (simp add: dropWhile_spaces dropWhile_nonspace_head)
  have "list_all isspace (rev ws2)" using assms(2) by (simp add: list_all_iff)
  moreover have "rev x \<noteq> []" "\<not> isspace (hd (rev x))"
    using assms(3,5) by (simp_all add: hd_rev)
  ultimately have "dropWhile isspace (rev ws2 @ rev x) = rev x"
    using dropWhile_nonspace_head [of "rev x" "[]"] by (simp add: dropWhile_spaces)
  then show ?thesis by (simp add: strip_def front)
qed

lemma strip_all_space:
  assumes "list_all isspace t"
  shows "strip t = []"
proof -
  have d: "dropWhile isspace t = []" using assms by (induction t) auto
  show ?thesis unfolding strip_def d by simp
qed

lemma remove_fences_Nil: "remove_fences [] = []"
  by (simp add: remove_fences_def startswith_def endswith_def str_def)

lemma remove_fences_json: "remove_fences (str ''```json'' @ y @ str ''```'') = y"
proof -
  have p: "prefix (str ''```json'') (str ''```json'' @ y @ str ''```'')" by simp
  have d: "drop 7 (str ''```json'' @ y @ str ''```'') = y @ str ''```''"
    by (simp add: str_def)
  have s: "suffix (str ''```'') (y @ str ''```'')" by (rule suffixI) simp
  have t: "take (length (y @ str ''```'') - 3) (y @ str ''```'') = y"
    by (simp add: str_def)
  show ?thesis
    unfolding remove_fences_def startswith_def endswith_def Let_def
    by (simp only: p d s t if_True)
qed

lemma remove_fences_plain:
  assumes "\<not> prefix (str ''json'') (y @ str ''```'')"
  shows "remove_fences (str ''```'' @ y @ str ''```'') = y"
proof -
  have "str ''```json'' = str ''```'' @ str ''json''" by (simp add: str_def)
  then have np: "\<not> prefix (str ''```json'') (str ''```'' @ y @ str ''```'')"
    using assms by simp
  have p: "prefix (str ''```'') (str ''```'' @ y @ str ''```'')" by simp
  have d: "drop 3 (str ''```'' @ y @ str ''```'') = y @ str ''```''"
    by (simp add: str_def)
  have s: "suffix (str ''```'') (y @ str ''```'')" by (rule suffixI) simp
  have t: "take (length (y @ str ''```'') - 3) (y @ str ''```'') = y"
    by (simp add: str_def)
  show ?thesis
    unfolding remove_fences_def startswith_def endswith_def Let_def
    by (simp only: np p d s t if_True if_False)
qed

lemma no_json_label:
  assumes "list_all isspace ws"
  shows "\<not> prefix (str ''json'') (ws @ 123 # rest)"
proof (cases ws)
  case Nil
  then show ?thesis by (simp add: str_def)
next
  case (Cons a as)
  then have "isspace a" using assms by simp
  then have "a \<noteq> 106" by (auto simp: isspace_def)
  then show ?thesis using Cons by (simp add: str_def)
qed

lemma greedy_to_brace_None: "125 \<notin> set post \<Longrightarrow> greedy_to_brace post = None"
  by (induction post) auto

lemma greedy_to_brace_last:
  "125 \<notin> set post \<Longrightarrow> greedy_to_brace (mid @ 125 # post) = Some (mid @ [125])"
  by (induction mid) (auto simp: greedy_to_brace_None)

lemma re_search_first:
  "123 \<notin> set pre \<Longrightarrow>
   re_search (pre @ 123 # rest) =
     (case greedy_to_brace rest of Some m \<Rightarrow> Some (123 # m) | None \<Rightarrow> re_search rest)"
  by (induction pre) auto

lemma re_search_widest:
  "123 \<notin> set pre \<Longrightarrow> 125 \<notin> set post \<Longrightarrow>
   re_search (pre @ [123] @ mid @ [125] @ post) = Some ([123] @ mid @ [125])"
  by (simp add: re_search_first greedy_to_brace_last)

lemma re_search_no_open: "123 \<notin> set s \<Longrightarrow> re_search s = None"
  by (induction s) auto

lemma parse_json_response_empty:
  "parse_json_response loads None = Inl (ValueError (str ''Empty response text''))"
  "parse_json_response loads (Some []) = Inl (ValueError (str ''Empty response text''))"
  by (simp_all add: parse_json_response_def)

lemma parse_json_response_no_brace:
  assumes "t \<noteq> []" and "loads (strip (remove_fences (strip t))) = Inl JSONDecodeError"
    and "123 \<notin> set (strip (remove_fences (strip t)))"
  shows "parse_json_response loads (Some t) =
           Inl (ValueError (str ''Could not parse JSON from Gemini response''))"
  using assms by (simp add: parse_json_response_def re_search_no_open)

text \<open>
  For any decoder: a successful strict parse is returned as it is, whatever kind of
  value it is; and when the strict parse and the decoding of the brace span both fail,
  the error of the second decoding is the error of the call.
\<close>

lemma parse_json_response_strict:
  assumes "t \<noteq> []" and "loads (strip (remove_fences (strip t))) = Inr v"
  shows "parse_json_response loads (Some t) = Inr v"
  using assms by (simp add: parse_json_response_def)

lemma parse_json_response_span_error:
  assumes "t \<noteq> []" and "loads (strip (remove_fences (strip t))) = Inl JSONDecodeError"
    and "re_search (strip (remove_fences (strip t))) = Some json_match"
    and "loads json_match = Inl e"
  shows "parse_json_response loads (Some t) = Inl e"
  using assms by (simp add: parse_json_response_def)

subsection \<open>Properties of \<open>parse_json_response\<close>\<close>

text \<open>
  C5. Round trip. Let a text that opens with \<open>{\<close> and closes with \<open>}\<close> be a
  serialisation of an object, that is, the decoder maps it to that object. Wrapped in
  either fence style (\<open>```json\<close> or \<open>```\<close> in front, \<open>```\<close> behind), with any
  whitespace before the opening fence, between the fences and the text, and after the
  closing fence, it is an input on which the extractor returns exactly that object.
\<close>

theorem fenced_round_trip:
  assumes "loads (123 # body @ [125]) = Inr (JObject m)"
    and "list_all isspace lead" and "list_all isspace gap"
    and "list_all isspace gap'" and "list_all isspace trail"
    and "fence = str ''```json'' \<or> fence = str ''```''"
  shows "parse_json_response loads
           (Some (lead @ fence @ gap @ (123 # body @ [125]) @ gap' @ str ''```'' @ trail)) =
         Inr (JObject m)"
proof -
  define s where "s = 123 # body @ [125]"
  define y where "y = gap @ s @ gap'"
  define x where "x = fence @ y @ str ''```''"
  define t where "t = lead @ x @ trail"
  have x: "x \<noteq> []" "\<not> isspace (hd x)" "\<not> isspace (last x)"
    using assms(6) by (auto simp: x_def str_def isspace_def)
  have first: "strip t = x"
    unfolding t_def by (rule strip_core [OF assms(2) assms(5) x])
  have "\<not> prefix (str ''json'') (y @ str ''```'')"
    using no_json_label [OF assms(3), of "body @ [125] @ gap' @ str ''```''"]
    by (simp add: y_def s_def)
  then have fences: "remove_fences x = y"
    using assms(6) remove_fences_json [of y] remove_fences_plain [of y] by (auto simp: x_def)
  have s: "s \<noteq> []" "\<not> isspace (hd s)" "\<not> isspace (last s)"
    by (simp_all add: s_def isspace_def)
  have second: "strip y = s"
    unfolding y_def by (rule strip_core [OF assms(3) assms(4) s])
  have "t \<noteq> []" using x(1) by (simp add: t_def)
  moreover have "loads s = Inr (JObject m)" using assms(1) by (simp add: s_def)
  ultimately have "parse_json_response loads (Some t) = Inr (JObject m)"
    by (simp add: parse_json_response_def first fences second)
  then show ?thesis by (simp add: t_def x_def y_def s_def)
qed

theorem fenced_round_trip_witness:
  "parse_json_response mini_loads
     (Some ([10, 32] @ str ''```json'' @ [10] @ (123 # str ''\"a\": 1'' @ [125]) @ [10] @
            str ''```'' @ [32, 10])) =
   Inr (JObject [(str ''a'', JInt 1)])"
proof -
  have l: "mini_loads (123 # str ''\"a\": 1'' @ [125]) = Inr (JObject [(str ''a'', JInt 1)])"
    by (simp add: str_def mini_loads_def json_ws_def scan_int_def is_digit_def scan_string_def)
  have w1: "list_all isspace [10, 32]" and w2: "list_all isspace [10]"
    and w4: "list_all isspace [32, 10]"
    by (simp_all add: isspace_def)
  have f: "str ''```json'' = str ''```json'' \<or> str ''```json'' = str ''```''" by simp
  show ?thesis
    by (rule fenced_round_trip [where loads = mini_loads and body = "str ''\"a\": 1''"
          and lead = "[10, 32]" and gap = "[10]" and gap' = "[10]" and trail = "[32, 10]"
          and fence = "str ''```json''", OF l w1 w2 w2 w4 f])
qed

text \<open>
  C6. When the strict parse of the processed text (trimmed, fences removed, trimmed
  again) fails with a decoding error, and the processed text has a \<open>{\<close> with a \<open>}\<close>
  after it, the extractor hands to the decoder exactly the part from the first \<open>{\<close>
  (none occurs in \<open>pre\<close>) to the last \<open>}\<close> (none occurs in \<open>post\<close>), whatever lies
  between them, newlines included, and its outcome is the outcome of that decoding. The
  concrete run recovers the object embedded in prose.
\<close>

theorem fallback_parses_widest_brace_span:
  assumes "loads (strip (remove_fences (strip t))) = Inl JSONDecodeError"
    and "strip (remove_fences (strip t)) = pre @ [123] @ mid @ [125] @ post"
    and "123 \<notin> set pre" and "125 \<notin> set post"
  shows "parse_json_response loads (Some t) = loads ([123] @ mid @ [125])"
proof -
  have "t \<noteq> []"
  proof
    assume "t = []"
    then have "strip (remove_fences (strip t)) = []"
      by (simp add: strip_def remove_fences_Nil)
    with assms(2) show False by simp
  qed
  moreover have "re_search (strip (remove_fences (strip t))) = Some ([123] @ mid @ [125])"
    unfolding assms(2) by (rule re_search_widest [OF assms(3) assms(4)])
  ultimately show ?thesis
    using assms(1) by (simp add: parse_json_response_def)
qed

theorem fallback_parses_widest_brace_span_witness:
  "parse_json_response mini_loads
     (Some (str ''Here is your answer: {\"ok\": true} '' @ [8212] @ str '' hope that helps'')) =
   Inr (JObject [(str ''ok'', JBool True)])"
proof -
  let ?t = "str ''Here is your answer: {\"ok\": true} '' @ [8212] @ str '' hope that helps''"
  have c: "strip (remove_fences (strip ?t)) =
      str ''Here is your answer: '' @ [123] @ str ''\"ok\": true'' @ [125] @
      (str '' '' @ [8212] @ str '' hope that helps'')"
    by (simp add: str_def strip_def remove_fences_def startswith_def endswith_def isspace_def
        suffix_to_prefix)
  have l: "mini_loads (strip (remove_fences (strip ?t))) = Inl JSONDecodeError"
    by (simp add: str_def strip_def remove_fences_def startswith_def endswith_def isspace_def
        suffix_to_prefix
        mini_loads_def json_ws_def scan_int_def is_digit_def scan_string_def)
  have p: "123 \<notin> set (str ''Here is your answer: '')"
    by (simp add: str_def)
  have q: "125 \<notin> set (str '' '' @ [8212] @ str '' hope that helps'')"
    by (simp add: str_def)
  have v: "mini_loads ([123] @ str ''\"ok\": true'' @ [125]) = Inr (JObject [(str ''ok'', JBool True)])"
    by (simp add: str_def mini_loads_def json_ws_def scan_int_def is_digit_def scan_string_def)
  show ?thesis
    using fallback_parses_widest_brace_span [where loads = mini_loads and t = ?t
        and pre = "str ''Here is your answer: ''" and mid = "str ''\"ok\": true''"
        and post = "str '' '' @ [8212] @ str '' hope that helps''", OF l c p q] v
    by simp
qed

text \<open>
  C7. The extractor returns whatever the decoder returns, and the strict parse is not
  restricted to objects: on the text \<open>[1,2,3]\<close> it succeeds and returns a list, although
  the function is annotated to return a \<open>Dict\<close>.
\<close>

theorem non_object_is_returned:
  "parse_json_response mini_loads (Some (str ''[1,2,3]'')) = Inr (JArray [JInt 1, JInt 2, JInt 3])"
  by (simp add: parse_json_response_def str_def strip_def remove_fences_def startswith_def endswith_def isspace_def
      suffix_to_prefix
      mini_loads_def json_ws_def scan_int_def is_digit_def scan_string_def)

text \<open>
  C8. On \<open>{bad}\<close> the strict parse fails, the brace search finds \<open>{bad}\<close>, and the
  second decoding, made inside the handler, fails as well: its \<open>JSONDecodeError\<close> leaves
  the function, and the final \<open>ValueError("Could not parse JSON from Gemini response")\<close>
  is never reached. (Empty and absent input are rejected with \<open>ValueError("Empty
  response text")\<close>, and a text without a brace span does end in the final error.)
\<close>

theorem broken_span_raises_decoder_error:
  "parse_json_response mini_loads (Some (str ''{bad}'')) = Inl JSONDecodeError"
  by (simp add: parse_json_response_def str_def strip_def remove_fences_def startswith_def endswith_def isspace_def
      suffix_to_prefix
      mini_loads_def json_ws_def scan_int_def is_digit_def scan_string_def)

text \<open>
  C10. A non-empty text of whitespace only passes the emptiness check, is trimmed to
  the empty text, which the decoder rejects and in which the brace search finds
  nothing: the call fails with the final \<open>ValueError("Could not parse JSON from Gemini
  response")\<close>, not with the \<open>ValueError("Empty response text")\<close> of the empty input,
  so the two inputs are told apart by the error.
\<close>

theorem whitespace_only_fails_as_unparseable:
  assumes "t \<noteq> []" and "list_all isspace t" and "loads [] = Inl JSONDecodeError"
  shows "parse_json_response loads (Some t) =
           Inl (ValueError (str ''Could not parse JSON from Gemini response'')) \<and>
         parse_json_response loads (Some []) = Inl (ValueError (str ''Empty response text'')) \<and>
         parse_json_response loads (Some t) \<noteq> parse_json_response loads (Some [])"
proof -
  have "strip (remove_fences (strip t)) = []"
    using assms(2) by (simp add: strip_all_space remove_fences_Nil)
  then have "parse_json_response loads (Some t) =
      Inl (ValueError (str ''Could not parse JSON from Gemini response''))"
    using assms(1,3) by (simp add: parse_json_response_def)
  then show ?thesis by (simp add: parse_json_response_def)
qed

theorem whitespace_only_fails_as_unparseable_witness:
  "parse_json_response mini_loads (Some [32, 10, 9, 12288]) =
     Inl (ValueError (str ''Could not parse JSON from Gemini response'')) \<and>
   parse_json_response mini_loads (Some []) = Inl (ValueError (str ''Empty response text''))"
proof -
  have n: "[32, 10, 9, 12288] \<noteq> ([] :: pystr)" by simp
  have s: "list_all isspace [32, 10, 9, 12288]" by (simp add: isspace_def)
  have l: "mini_loads [] = Inl JSONDecodeError" by (simp add: mini_loads_def)
  show ?thesis
    using whitespace_only_fails_as_unparseable [where loads = mini_loads
        and t = "[32, 10, 9, 12288]", OF n s l]
    by simp
qed

end
